theory Spec2Isabelle
  imports Main "HOL-Library.Word"
begin

section \<open>The request engine of \<open>how\<close>: package \<open>api\<close>, function \<open>GenerateResponse\<close>\<close>

text \<open>
  The engine turns a prompt into one trimmed answer of the Gemini service or one typed
  error. Its source is a single Go function with a \<open>for\<close> loop over the attempt index.
  The embedding below keeps the order of the source: the Go standard-library string
  functions it calls, the error types, the wire structures, the model name and the URL,
  one loop iteration, the loop, and the function itself.
\<close>

subsection \<open>The string functions of Go's \<open>strings\<close> package that the engine calls\<close>

text \<open>
  A Go string is a sequence of bytes; \<open>string\<close> is a list of 8-bit characters, so lengths
  and prefixes are byte-wise as in Go.
\<close>

definition HasPrefix :: "string \<Rightarrow> string \<Rightarrow> bool" where
  "HasPrefix s p = (length p \<le> length s \<and> take (length p) s = p)"

definition HasSuffix :: "string \<Rightarrow> string \<Rightarrow> bool" where
  "HasSuffix s p = (length p \<le> length s \<and> drop (length s - length p) s = p)"

definition TrimPrefix :: "string \<Rightarrow> string \<Rightarrow> string" where
  "TrimPrefix s p = (if HasPrefix s p then drop (length p) s else s)"

fun Contains :: "string \<Rightarrow> string \<Rightarrow> bool" where
  "Contains [] sub = (sub = [])"
| "Contains (c # cs) sub = (HasPrefix (c # cs) sub \<or> Contains cs sub)"

text \<open>
  \<open>strings.TrimSpace\<close> removes leading and trailing white space as \<open>unicode.IsSpace\<close>
  defines it. On the bytes of a string these are the UTF-8 encodings of U+0009 to U+000D,
  U+0020, U+0085, U+00A0, U+1680, U+2000 to U+200A, U+2028, U+2029, U+202F, U+205F and
  U+3000. Go decodes one rune at the front (or at the back) and drops its width while
  the rune is white space.
\<close>

definition space_runes :: "string list" where
  "space_runes =
    [[CHR 0x09], [CHR 0x0A], [CHR 0x0B], [CHR 0x0C], [CHR 0x0D], [CHR 0x20],
     [CHR 0xC2, CHR 0x85], [CHR 0xC2, CHR 0xA0],
     [CHR 0xE1, CHR 0x9A, CHR 0x80],
     [CHR 0xE2, CHR 0x80, CHR 0x80], [CHR 0xE2, CHR 0x80, CHR 0x81],
     [CHR 0xE2, CHR 0x80, CHR 0x82], [CHR 0xE2, CHR 0x80, CHR 0x83],
     [CHR 0xE2, CHR 0x80, CHR 0x84], [CHR 0xE2, CHR 0x80, CHR 0x85],
     [CHR 0xE2, CHR 0x80, CHR 0x86], [CHR 0xE2, CHR 0x80, CHR 0x87],
     [CHR 0xE2, CHR 0x80, CHR 0x88], [CHR 0xE2, CHR 0x80, CHR 0x89],
     [CHR 0xE2, CHR 0x80, CHR 0x8A],
     [CHR 0xE2, CHR 0x80, CHR 0xA8], [CHR 0xE2, CHR 0x80, CHR 0xA9],
     [CHR 0xE2, CHR 0x80, CHR 0xAF],
     [CHR 0xE2, CHR 0x81, CHR 0x9F],
     [CHR 0xE3, CHR 0x80, CHR 0x80]]"

fun prefix_width :: "string list \<Rightarrow> string \<Rightarrow> nat option" where
  "prefix_width [] s = None"
| "prefix_width (r # rs) s = (if HasPrefix s r then Some (length r) else prefix_width rs s)"

fun suffix_width :: "string list \<Rightarrow> string \<Rightarrow> nat option" where
  "suffix_width [] s = None"
| "suffix_width (r # rs) s = (if HasSuffix s r then Some (length r) else suffix_width rs s)"

definition leading_space :: "string \<Rightarrow> nat option" where
  "leading_space s = prefix_width space_runes s"

definition trailing_space :: "string \<Rightarrow> nat option" where
  "trailing_space s = suffix_width space_runes s"

lemma prefix_width_bound:
  "prefix_width rs s = Some n \<Longrightarrow> \<forall>r \<in> set rs. r \<noteq> [] \<Longrightarrow> 0 < n \<and> n \<le> length s"
  by (induction rs) (auto simp: HasPrefix_def split: if_splits)

lemma suffix_width_bound:
  "suffix_width rs s = Some n \<Longrightarrow> \<forall>r \<in> set rs. r \<noteq> [] \<Longrightarrow> 0 < n \<and> n \<le> length s"
  by (induction rs) (auto simp: HasSuffix_def split: if_splits)

lemma space_runes_nonempty: "\<forall>r \<in> set space_runes. r \<noteq> []"
  by (simp add: space_runes_def)

lemma leading_space_bound: "leading_space s = Some n \<Longrightarrow> 0 < n \<and> n \<le> length s"
  unfolding leading_space_def using prefix_width_bound space_runes_nonempty by blast

lemma trailing_space_bound: "trailing_space s = Some n \<Longrightarrow> 0 < n \<and> n \<le> length s"
  unfolding trailing_space_def using suffix_width_bound space_runes_nonempty by blast

function TrimLeft :: "string \<Rightarrow> string" where
  "TrimLeft s = (case leading_space s of None \<Rightarrow> s | Some n \<Rightarrow> TrimLeft (drop n s))"
  by pat_completeness auto
termination
proof (relation "measure length")
  show "wf (measure length)" by simp
next
  fix s :: string and n
  assume "leading_space s = Some n"
  then have "0 < n \<and> n \<le> length s" by (rule leading_space_bound)
  then show "(drop n s, s) \<in> measure length" by auto
qed

function TrimRight :: "string \<Rightarrow> string" where
  "TrimRight s =
     (case trailing_space s of None \<Rightarrow> s | Some n \<Rightarrow> TrimRight (take (length s - n) s))"
  by pat_completeness auto
termination
proof (relation "measure length")
  show "wf (measure length)" by simp
next
  fix s :: string and n
  assume "trailing_space s = Some n"
  then have "0 < n \<and> n \<le> length s" by (rule trailing_space_bound)
  then show "(take (length s - n) s, s) \<in> measure length" by auto
qed

definition TrimSpace :: "string \<Rightarrow> string" where
  "TrimSpace s = TrimRight (TrimLeft s)"

declare TrimLeft.simps [simp del]
declare TrimRight.simps [simp del]

text \<open>The verb \<open>%d\<close> of \<open>fmt.Sprintf\<close> on an \<open>int\<close>: decimal digits, a minus sign if negative.\<close>

definition digit :: "nat \<Rightarrow> char" where
  "digit d = ''0123456789'' ! d"

function decimal :: "nat \<Rightarrow> string" where
  "decimal n = (if n < 10 then [digit n] else decimal (n div 10) @ [digit (n mod 10)])"
  by pat_completeness auto
termination
  by (relation "measure id") auto

declare decimal.simps [simp del]

definition Sprintf_d :: "int \<Rightarrow> string" where
  "Sprintf_d i = (if i < 0 then CHR ''-'' # decimal (nat (- i)) else decimal (nat i))"

subsection \<open>Error types and wire structures\<close>

text \<open>
  The four error types of the package, each a struct with one \<open>Message\<close> field. The Go
  function returns \<open>(string, error)\<close>: the pair of the text and \<open>None\<close> for \<open>nil\<close>.
\<close>

datatype error =
    ApiError string
  | AuthError string
  | ContentError string
  | ApiTimeoutError string

type_synonym outcome = "string \<times> error option"

record part =
  Text :: string

record content =
  Parts :: "part list"

record geminiRequest =
  Contents :: "content list"

record safetyRating =
  Category :: string
  Probability :: string

record candidate =
  Content :: content
  FinishReason :: string
  SafetyRatings :: "safetyRating list"

record promptFeedback =
  BlockReason :: string

text \<open>\<open>PromptFeedback\<close> is a pointer in the source: \<open>None\<close> is \<open>nil\<close>.\<close>

record geminiResponse =
  Candidates :: "candidate list"
  PromptFeedback :: "promptFeedback option"

subsection \<open>What the engine does not decide itself\<close>

text \<open>
  One loop iteration calls \<open>json.Marshal\<close>, \<open>http.NewRequest\<close>, \<open>client.Do\<close> and
  \<open>io.ReadAll\<close> in this order and returns at the first error, so what the outside gives
  to one iteration is exactly one of five things.
\<close>

datatype exchange =
    MarshalFailed string
  | NewRequestFailed string
  | DoFailed string
  | ReadFailed int string
  | Delivered int string

text \<open>
  The world of one call: the process environment read by \<open>os.Getenv\<close> (\<open>None\<close> for an
  unset variable), the exchange that the URL and the request body get at each attempt
  index, and \<open>json.Unmarshal\<close> into a \<open>geminiResponse\<close> (\<open>Inl\<close> carries the text of the
  parse error).
\<close>

record world =
  environ :: "string \<rightharpoonup> string"
  attempt_exchange :: "string \<Rightarrow> geminiRequest \<Rightarrow> nat \<Rightarrow> exchange"
  json_Unmarshal :: "string \<Rightarrow> string + geminiResponse"

definition Getenv :: "world \<Rightarrow> string \<Rightarrow> string" where
  "Getenv w k = (case environ w k of None \<Rightarrow> [] | Some v \<Rightarrow> v)"

text \<open>
  The effects a caller can observe besides the result: each call of \<open>client.Do\<close>, with
  its attempt index, and each call of \<open>time.Sleep\<close>, with its argument in nanoseconds.
\<close>

datatype event = ClientDo nat | Sleep int

definition attempts_made :: "event list \<Rightarrow> nat" where
  "attempts_made evs = length (filter (\<lambda>e. case e of ClientDo _ \<Rightarrow> True | Sleep _ \<Rightarrow> False) evs)"

fun sleeps :: "event list \<Rightarrow> int list" where
  "sleeps [] = []"
| "sleeps (ClientDo _ # evs) = sleeps evs"
| "sleeps (Sleep d # evs) = d # sleeps evs"

subsection \<open>Model name, URL and request body\<close>

definition modelName :: "world \<Rightarrow> string" where
  "modelName w =
     (let m = Getenv w ''HOW_MODEL'';
          m = (if m = [] then ''gemini-2.5-flash'' else m)
      in TrimPrefix m ''models/'')"

definition request_url :: "world \<Rightarrow> string \<Rightarrow> string" where
  "request_url w apiKey =
     ''https://generativelanguage.googleapis.com/v1beta/models/'' @ modelName w
       @ '':generateContent?key='' @ apiKey"

definition reqBody :: "string \<Rightarrow> geminiRequest" where
  "reqBody prompt = \<lparr>Contents = [\<lparr>Parts = [\<lparr>Text = prompt\<rparr>]\<rparr>]\<rparr>"

subsection \<open>Backoff durations\<close>

text \<open>
  \<open>time.Duration\<close> is a signed 64-bit count of nanoseconds and \<open>time.Second\<close> is
  \<open>1000000000\<close>. In \<open>time.Duration(1<<uint(attempt)) * time.Second\<close> the shift and the
  product are 64-bit: a shift by 64 or more gives 0 and the product wraps around.
  In \<open>1<<uint(attempt)+1\<close> the shift binds tighter than the sum.
\<close>

type_synonym Duration = "64 word"

definition Second :: Duration where
  "Second = 1000000000"

definition timeout_backoff :: "nat \<Rightarrow> int" where
  "timeout_backoff attempt = sint (push_bit attempt (1 :: Duration) * Second)"

definition ratelimit_backoff :: "nat \<Rightarrow> int" where
  "ratelimit_backoff attempt = sint ((push_bit attempt (1 :: Duration) + 1) * Second)"

subsection \<open>The response decoder: lines 155 to 182\<close>

definition decode :: "geminiResponse \<Rightarrow> outcome" where
  "decode r =
     (case (case PromptFeedback r of None \<Rightarrow> None
            | Some pf \<Rightarrow> if BlockReason pf \<noteq> [] then Some (BlockReason pf) else None) of
        Some reason \<Rightarrow> ([], Some (ContentError (''Blocked: '' @ reason)))
      | None \<Rightarrow>
         (case Candidates r of
            [] \<Rightarrow> ([], Some (ContentError ''Empty response from API''))
          | c # _ \<Rightarrow>
             (case Parts (Content c) of
                [] \<Rightarrow> ([], Some (ContentError ''No content parts in response''))
              | p # _ \<Rightarrow>
                 (let text = TrimSpace (Text p)
                  in if text = [] then ([], Some (ContentError ''Empty response from API''))
                     else (text, None)))))"

subsection \<open>One iteration of the attempt loop\<close>

text \<open>
  The result of the body of the \<open>for\<close> loop at one attempt index: \<open>Some\<close> of what a
  \<open>return\<close> gives, or \<open>None\<close> for \<open>continue\<close>, together with the events of the iteration.
\<close>

definition is_timeout :: "string \<Rightarrow> bool" where
  "is_timeout e = (Contains e ''timeout'' \<or> Contains e ''deadline exceeded'')"

definition iteration ::
  "world \<Rightarrow> string \<Rightarrow> geminiRequest \<Rightarrow> int \<Rightarrow> nat \<Rightarrow> outcome option \<times> event list" where
  "iteration w url body maxRetries attempt =
     (case attempt_exchange w url body attempt of
        MarshalFailed e \<Rightarrow>
          (Some ([], Some (ApiError (''Failed to marshal request: '' @ e))), [])
      | NewRequestFailed e \<Rightarrow>
          (Some ([], Some (ApiError (''Failed to create request: '' @ e))), [])
      | DoFailed e \<Rightarrow>
          (if is_timeout e then
             (if int attempt = maxRetries - 1 then
                (Some ([], Some (ApiTimeoutError ''API request timed out'')), [ClientDo attempt])
              else (None, [ClientDo attempt, Sleep (timeout_backoff attempt)]))
           else (Some ([], Some (ApiError (''Request failed: '' @ e))), [ClientDo attempt]))
      | ReadFailed status e \<Rightarrow>
          (Some ([], Some (ApiError (''Failed to read response: '' @ e))), [ClientDo attempt])
      | Delivered status bytes \<Rightarrow>
          (if status = 429 then
             (if int attempt = maxRetries - 1 then
                (Some ([], Some (ApiError ''Rate limit exceeded'')), [ClientDo attempt])
              else (None, [ClientDo attempt, Sleep (ratelimit_backoff attempt)]))
           else if status \<noteq> 200 then
             (Some ([], Some (ApiError (''API returned status '' @ Sprintf_d status
                                          @ '': '' @ bytes))), [ClientDo attempt])
           else
             (case json_Unmarshal w bytes of
                Inl e \<Rightarrow>
                  (Some ([], Some (ApiError (''Failed to parse response: '' @ e))),
                   [ClientDo attempt])
              | Inr geminiResp \<Rightarrow> (Some (decode geminiResp), [ClientDo attempt]))))"

subsection \<open>The loop and the function\<close>

text \<open>
  \<open>attempt_loop w url body maxRetries attempt\<close> is the execution from the test of the loop
  condition with the counter at \<open>attempt\<close>: \<open>None\<close> when the loop ends by its condition.
\<close>

function attempt_loop ::
  "world \<Rightarrow> string \<Rightarrow> geminiRequest \<Rightarrow> int \<Rightarrow> nat \<Rightarrow> outcome option \<times> event list" where
  "attempt_loop w url body maxRetries attempt =
     (if int attempt < maxRetries then
        (case iteration w url body maxRetries attempt of
           (Some r, evs) \<Rightarrow> (Some r, evs)
         | (None, evs) \<Rightarrow>
             (case attempt_loop w url body maxRetries (Suc attempt) of
                (r, evs') \<Rightarrow> (r, evs @ evs')))
      else (None, []))"
  by pat_completeness auto
termination
  by (relation "measure (\<lambda>(w, url, body, maxRetries, attempt). nat (maxRetries - int attempt))")
    auto

declare attempt_loop.simps [simp del]

definition GenerateResponse :: "world \<Rightarrow> string \<Rightarrow> string \<Rightarrow> int \<Rightarrow> outcome \<times> event list" where
  "GenerateResponse w apiKey prompt maxRetries =
     (case attempt_loop w (request_url w apiKey) (reqBody prompt) maxRetries 0 of
        (Some r, evs) \<Rightarrow> (r, evs)
      | (None, evs) \<Rightarrow> (([], Some (ApiError ''Max retries exceeded'')), evs))"

text \<open>The events of the iterations before attempt \<open>n\<close>, in order.\<close>

definition earlier :: "world \<Rightarrow> string \<Rightarrow> geminiRequest \<Rightarrow> int \<Rightarrow> nat \<Rightarrow> event list" where
  "earlier w u b m n = concat (map (\<lambda>k. snd (iteration w u b m k)) [0..<n])"

text \<open>
  Attempt \<open>k\<close> of a call was retried when its iteration ended in \<open>continue\<close>.
\<close>

definition retried :: "world \<Rightarrow> string \<Rightarrow> string \<Rightarrow> int \<Rightarrow> nat \<Rightarrow> bool" where
  "retried w apiKey prompt maxRetries k =
     (fst (iteration w (request_url w apiKey) (reqBody prompt) maxRetries k) = None)"

subsection \<open>Scripted worlds\<close>

text \<open>
  A world whose exchanges follow a fixed script, one entry per attempt index; beyond the
  script every connection is refused.
\<close>

definition scripted_world ::
  "(string \<rightharpoonup> string) \<Rightarrow> exchange list \<Rightarrow> (string \<Rightarrow> string + geminiResponse) \<Rightarrow> world" where
  "scripted_world env script parse =
     \<lparr>environ = env,
      attempt_exchange =
        (\<lambda>url body n. if n < length script then script ! n else DoFailed ''connection refused''),
      json_Unmarshal = parse\<rparr>"

text \<open>
  Response bodies of the service and what \<open>json.Unmarshal\<close> makes of them: the
  decoder \<open>example_Unmarshal\<close> knows these five bodies and rejects every other one.
\<close>

definition ls_body :: string where
  \<open>ls_body =
     ''{"candidates":[{"content":{"parts":[{"text":"  ls -la  '' @ [CHR 0x5C] @ ''n"}]}}]}''\<close>

definition no_candidates_body :: string where
  \<open>no_candidates_body = ''{"candidates":[]}''\<close>

definition no_parts_body :: string where
  \<open>no_parts_body = ''{"candidates":[{"content":{"parts":[]}}]}''\<close>

definition blank_text_body :: string where
  \<open>blank_text_body = ''{"candidates":[{"content":{"parts":[{"text":"   "}]}}]}''\<close>

definition blocked_body :: string where
  \<open>blocked_body = ''{"promptFeedback":{"blockReason":"SAFETY"}}''\<close>

definition text_candidate :: "string \<Rightarrow> candidate" where
  "text_candidate t = \<lparr>Content = \<lparr>Parts = [\<lparr>Text = t\<rparr>]\<rparr>, FinishReason = [], SafetyRatings = []\<rparr>"

definition example_Unmarshal :: "string \<Rightarrow> string + geminiResponse" where
  "example_Unmarshal bytes =
     (if bytes = ls_body then
        Inr \<lparr>Candidates = [text_candidate ''  ls -la  \<newline>''], PromptFeedback = None\<rparr>
      else if bytes = no_candidates_body then
        Inr \<lparr>Candidates = [], PromptFeedback = None\<rparr>
      else if bytes = no_parts_body then
        Inr \<lparr>Candidates = [\<lparr>Content = \<lparr>Parts = []\<rparr>, FinishReason = [], SafetyRatings = []\<rparr>],
             PromptFeedback = None\<rparr>
      else if bytes = blank_text_body then
        Inr \<lparr>Candidates = [text_candidate ''   ''], PromptFeedback = None\<rparr>
      else if bytes = blocked_body then
        Inr \<lparr>Candidates = [], PromptFeedback = Some \<lparr>BlockReason = ''SAFETY''\<rparr>\<rparr>
      else Inl ''invalid character'')"

definition example_world :: "exchange list \<Rightarrow> world" where
  "example_world script = scripted_world Map.empty script example_Unmarshal"

text \<open>A parser that rejects every body.\<close>

definition no_parse :: "string \<Rightarrow> string + geminiResponse" where
  "no_parse bytes = Inl ''unexpected end of JSON input''"

text \<open>A world that answers every attempt with the same exchange.\<close>

definition always :: "exchange \<Rightarrow> world" where
  "always x = \<lparr>environ = Map.empty, attempt_exchange = (\<lambda>url body n. x), json_Unmarshal = no_parse\<rparr>"

text \<open>A world where only the variable \<open>HOW_MODEL\<close> may be set.\<close>

definition with_model :: "string option \<Rightarrow> world" where
  "with_model v =
     \<lparr>environ = (\<lambda>k. if k = ''HOW_MODEL'' then v else None),
      attempt_exchange = (\<lambda>url body n. DoFailed ''connection refused''),
      json_Unmarshal = no_parse\<rparr>"

text \<open>
  The events of \<open>n\<close> retried attempts whose sleeps are given by \<open>d\<close>: for each attempt
  index the transport call, then the sleep.
\<close>

definition backoff_trace :: "(nat \<Rightarrow> int) \<Rightarrow> nat \<Rightarrow> event list" where
  "backoff_trace d n = concat (map (\<lambda>k. [ClientDo k, Sleep (d k)]) [0..<n])"

section \<open>Properties of the string functions\<close>

lemma TrimLeft_no_leading: "leading_space (TrimLeft s) = None"
  by (induction s rule: TrimLeft.induct) (subst TrimLeft.simps, simp split: option.splits)

lemma TrimRight_no_trailing: "trailing_space (TrimRight s) = None"
  by (induction s rule: TrimRight.induct) (subst TrimRight.simps, simp split: option.splits)

lemma TrimLeft_fixed: "leading_space s = None \<Longrightarrow> TrimLeft s = s"
  by (subst TrimLeft.simps) simp

lemma TrimRight_fixed: "trailing_space s = None \<Longrightarrow> TrimRight s = s"
  by (subst TrimRight.simps) simp

lemma TrimRight_is_take: "\<exists>k. TrimRight s = take k s"
proof (induction s rule: TrimRight.induct)
  case (1 s)
  show ?case
  proof (cases "trailing_space s")
    case None
    then have "TrimRight s = take (length s) s" by (simp add: TrimRight_fixed)
    then show ?thesis by blast
  next
    case (Some n)
    from 1 [OF Some] obtain k where k: "TrimRight (take (length s - n) s) = take k (take (length s - n) s)"
      by blast
    have "TrimRight s = TrimRight (take (length s - n) s)"
      by (subst TrimRight.simps) (simp add: Some)
    with k have "TrimRight s = take (min k (length s - n)) s" by (simp add: min.commute)
    then show ?thesis by blast
  qed
qed

lemma HasPrefix_take: "HasPrefix (take k s) p \<Longrightarrow> HasPrefix s p"
  by (auto simp: HasPrefix_def min_def take_take split: if_splits)

lemma prefix_width_take: "prefix_width rs s = None \<Longrightarrow> prefix_width rs (take k s) = None"
  by (induction rs) (auto dest: HasPrefix_take split: if_splits)

lemma leading_space_take: "leading_space s = None \<Longrightarrow> leading_space (take k s) = None"
  by (simp add: leading_space_def prefix_width_take)

lemma TrimSpace_idem: "TrimSpace (TrimSpace s) = TrimSpace s"
proof -
  obtain k where k: "TrimRight (TrimLeft s) = take k (TrimLeft s)"
    using TrimRight_is_take by blast
  have "leading_space (TrimRight (TrimLeft s)) = None"
    unfolding k by (rule leading_space_take) (rule TrimLeft_no_leading)
  then have "TrimLeft (TrimRight (TrimLeft s)) = TrimRight (TrimLeft s)"
    by (rule TrimLeft_fixed)
  moreover have "TrimRight (TrimRight (TrimLeft s)) = TrimRight (TrimLeft s)"
    by (rule TrimRight_fixed) (rule TrimRight_no_trailing)
  ultimately show ?thesis by (simp add: TrimSpace_def)
qed


section \<open>Backoff durations and the 64-bit wrap-around\<close>

lemma stb_dvd:
  fixes k :: int
  assumes "2 ^ 30 dvd k"
  shows "2 ^ 30 dvd signed_take_bit 63 k"
proof -
  have "signed_take_bit 63 k = take_bit 64 (k + 2 ^ 63) - 2 ^ 63"
    by (simp add: signed_take_bit_eq_take_bit_shift)
  also have "\<dots> = (k + 2 ^ 63) mod 2 ^ 64 - 2 ^ 63"
    by (simp add: take_bit_eq_mod)
  finally have e: "signed_take_bit 63 k = (k + 2 ^ 63) mod 2 ^ 64 - 2 ^ 63" .
  have a: "(2::int) ^ 30 dvd 2 ^ 63" by (rule le_imp_power_dvd) simp
  have b: "(2::int) ^ 30 dvd 2 ^ 64" by (rule le_imp_power_dvd) simp
  have "(2::int) ^ 30 dvd (k + 2 ^ 63) mod 2 ^ 64"
    using assms a b by (simp add: dvd_mod)
  from this a show ?thesis unfolding e by (rule dvd_diff)
qed

lemma stb_room:
  fixes k :: int
  assumes "2 ^ 30 dvd k"
  shows "signed_take_bit 63 k \<le> 2 ^ 63 - 2 ^ 30"
proof -
  obtain q where q: "signed_take_bit 63 k = 2 ^ 30 * q"
    using stb_dvd [OF assms] by (auto simp: dvd_def)
  have "signed_take_bit 63 k < 2 ^ 63" by (rule signed_take_bit_int_less_exp)
  then have "2 ^ 30 * q < (2::int) ^ 30 * 2 ^ 33" by (simp add: q)
  then have "q < 2 ^ 33" by (simp only: mult_less_cancel_left_pos zero_less_power zero_less_numeral)
  then have "q \<le> 2 ^ 33 - 1" by simp
  then have "2 ^ 30 * q \<le> (2::int) ^ 30 * (2 ^ 33 - 1)" by (simp only: mult_le_cancel_left_pos zero_less_power zero_less_numeral)
  then show ?thesis by (simp add: q)
qed

lemma stb_add:
  fixes k :: int
  assumes "2 ^ 30 dvd k"
  shows "signed_take_bit 63 (k + 1000000000) = signed_take_bit 63 k + 1000000000"
proof -
  let ?t = "signed_take_bit 63 k"
  have up: "?t \<le> 2 ^ 63 - 2 ^ 30" using assms by (rule stb_room)
  have lo: "- (2 ^ 63) \<le> ?t" by (rule signed_take_bit_int_greater_eq_minus_exp)
  have "signed_take_bit 63 (k + 1000000000) = signed_take_bit 63 (?t + signed_take_bit 63 1000000000)"
    by (simp only: signed_take_bit_add)
  also have "signed_take_bit 63 (1000000000::int) = 1000000000"
    by (rule signed_take_bit_int_eq_self) simp_all
  also have "signed_take_bit 63 (?t + 1000000000) = ?t + 1000000000"
    by (rule signed_take_bit_int_eq_self) (use up lo in simp_all)
  finally show ?thesis .
qed


lemma pow_bound: "n \<le> 33 \<Longrightarrow> (2::int) ^ n \<le> 2 ^ 33"
  by (rule power_increasing) simp_all

lemma timeout_backoff_stb: "timeout_backoff n = signed_take_bit 63 (2 ^ n * 1000000000)"
proof -
  have "push_bit n (1 :: Duration) * Second = word_of_int (2 ^ n * 1000000000)"
    by (simp add: Second_def push_bit_eq_mult)
  then show ?thesis by (simp only: timeout_backoff_def sint_sbintrunc') simp
qed

lemma ratelimit_backoff_stb:
  "ratelimit_backoff n = signed_take_bit 63 (2 ^ n * 1000000000 + 1000000000)"
proof -
  have "(push_bit n (1 :: Duration) + 1) * Second = word_of_int (2 ^ n * 1000000000 + 1000000000)"
    by (simp add: Second_def push_bit_eq_mult algebra_simps)
  then show ?thesis by (simp only: ratelimit_backoff_def sint_sbintrunc') simp
qed

lemma stb_self:
  fixes p :: int
  assumes "0 \<le> p" and "p \<le> 8589934592"
  shows "signed_take_bit 63 (p * 1000000000) = p * 1000000000"
    and "signed_take_bit 63 (p * 1000000000 + 1000000000) = p * 1000000000 + 1000000000"
  by (rule signed_take_bit_int_eq_self; use assms in simp)+

lemma timeout_backoff_small: "n \<le> 33 \<Longrightarrow> timeout_backoff n = 2 ^ n * 1000000000"
proof -
  assume n: "n \<le> 33"
  have le: "(2::int) ^ n \<le> 8589934592" using pow_bound [OF n] by simp
  have pos: "0 \<le> (2::int) ^ n" by simp
  show ?thesis unfolding timeout_backoff_stb using pos le by (rule stb_self)
qed

lemma ratelimit_backoff_small: "n \<le> 33 \<Longrightarrow> ratelimit_backoff n = (2 ^ n + 1) * 1000000000"
proof -
  assume n: "n \<le> 33"
  have le: "(2::int) ^ n \<le> 8589934592" using pow_bound [OF n] by simp
  have pos: "0 \<le> (2::int) ^ n" by simp
  have "ratelimit_backoff n = 2 ^ n * 1000000000 + 1000000000"
    unfolding ratelimit_backoff_stb using pos le by (rule stb_self)
  then show ?thesis by (simp add: algebra_simps)
qed

lemma ratelimit_longer: "timeout_backoff n < ratelimit_backoff n"
proof (cases "n \<le> 33")
  case True
  then show ?thesis by (simp add: timeout_backoff_small ratelimit_backoff_small algebra_simps)
next
  case False
  then have "21 \<le> n" by simp
  then have "(2::int) ^ 21 dvd 2 ^ n" by (rule le_imp_power_dvd)
  then have "(2::int) ^ 21 * 2 ^ 9 dvd 2 ^ n * 1000000000"
    by (rule mult_dvd_mono) simp
  then have "(2::int) ^ 30 dvd 2 ^ n * 1000000000" by simp
  then have "ratelimit_backoff n = timeout_backoff n + 1000000000"
    unfolding timeout_backoff_stb ratelimit_backoff_stb by (rule stb_add)
  then show ?thesis by simp
qed


section \<open>The attempt loop\<close>

lemma loop_return:
  "int n < m \<Longrightarrow> iteration w u b m n = (Some r, evs) \<Longrightarrow> attempt_loop w u b m n = (Some r, evs)"
  by (subst attempt_loop.simps) simp

lemma loop_continue:
  "int n < m \<Longrightarrow> iteration w u b m n = (None, evs) \<Longrightarrow>
   attempt_loop w u b m n =
     (fst (attempt_loop w u b m (Suc n)), evs @ snd (attempt_loop w u b m (Suc n)))"
  by (subst attempt_loop.simps) (simp add: case_prod_beta)

lemma loop_exit: "\<not> int n < m \<Longrightarrow> attempt_loop w u b m n = (None, [])"
  by (subst attempt_loop.simps) simp

lemma iteration_continue:
  "fst (iteration w u b m n) = None \<Longrightarrow>
   int n \<noteq> m - 1 \<and>
   (\<exists>d. snd (iteration w u b m n) = [ClientDo n, Sleep d])"
  by (auto simp: iteration_def split: exchange.splits if_splits sum.splits)

lemma loop_never_falls_through: "int n < m \<Longrightarrow> fst (attempt_loop w u b m n) \<noteq> None"
proof (induction w u b m n rule: attempt_loop.induct)
  case (1 w u b m n)
  show ?case
  proof (cases "fst (iteration w u b m n)")
    case None
    then obtain evs where it: "iteration w u b m n = (None, evs)"
      by (cases "iteration w u b m n") simp
    from None have "int n \<noteq> m - 1" by (simp add: iteration_continue)
    with "1.prems" have next_ok: "int (Suc n) < m" by simp
    have "fst (attempt_loop w u b m (Suc n)) \<noteq> None"
      using "1.IH" [OF "1.prems" it [symmetric] refl next_ok] .
    then show ?thesis by (simp add: loop_continue [OF "1.prems" it])
  next
    case (Some r)
    then obtain evs where "iteration w u b m n = (Some r, evs)"
      by (cases "iteration w u b m n") simp
    then show ?thesis by (simp add: loop_return [OF "1.prems"])
  qed
qed

lemma loop_reach:
  "int n < m \<Longrightarrow> \<forall>k<n. fst (iteration w u b m k) = None \<Longrightarrow>
   attempt_loop w u b m 0 =
     (fst (attempt_loop w u b m n), earlier w u b m n @ snd (attempt_loop w u b m n))"
proof (induction n)
  case 0
  show ?case by (simp add: earlier_def)
next
  case (Suc n)
  have lt: "int n < m" using Suc.prems(1) by simp
  have prev: "\<forall>k<n. fst (iteration w u b m k) = None" using Suc.prems(2) by simp
  have "fst (iteration w u b m n) = None" using Suc.prems(2) by simp
  then have it: "iteration w u b m n = (None, snd (iteration w u b m n))"
    by (cases "iteration w u b m n") simp
  show ?case
    using Suc.IH [OF lt prev] loop_continue [OF lt it]
    by (simp add: earlier_def)
qed

lemma sleeps_append: "sleeps (xs @ ys) = sleeps xs @ sleeps ys"
  by (induction xs rule: sleeps.induct) simp_all

lemma earlier_counts:
  "\<forall>k<n. fst (iteration w u b m k) = None \<Longrightarrow>
   attempts_made (earlier w u b m n) = n \<and> length (sleeps (earlier w u b m n)) = n"
proof (induction n)
  case 0
  show ?case by (simp add: earlier_def attempts_made_def)
next
  case (Suc n)
  have "fst (iteration w u b m n) = None" using Suc.prems by simp
  then obtain d where d: "snd (iteration w u b m n) = [ClientDo n, Sleep d]"
    using iteration_continue by blast
  have e: "earlier w u b m (Suc n) = earlier w u b m n @ [ClientDo n, Sleep d]"
    by (simp add: earlier_def d)
  from Suc show ?case by (simp add: e sleeps_append attempts_made_def)
qed


lemma GenerateResponse_terminal:
  assumes n: "int n < m"
    and prev: "\<forall>k<n. retried w a p m k"
    and it: "iteration w (request_url w a) (reqBody p) m n = (Some r, [ClientDo n])"
  shows "fst (GenerateResponse w a p m) = r \<and>
         attempts_made (snd (GenerateResponse w a p m)) = Suc n \<and>
         length (sleeps (snd (GenerateResponse w a p m))) = n \<and>
         last (snd (GenerateResponse w a p m)) = ClientDo n"
proof -
  let ?u = "request_url w a" and ?b = "reqBody p"
  have prev': "\<forall>k<n. fst (iteration w ?u ?b m k) = None"
    using prev by (simp add: retried_def)
  have at_n: "attempt_loop w ?u ?b m n = (Some r, [ClientDo n])"
    using n it by (rule loop_return)
  have run: "attempt_loop w ?u ?b m 0 = (Some r, earlier w ?u ?b m n @ [ClientDo n])"
    using loop_reach [OF n prev'] by (simp add: at_n)
  have g: "GenerateResponse w a p m = (r, earlier w ?u ?b m n @ [ClientDo n])"
    by (simp add: GenerateResponse_def run)
  show ?thesis
    using earlier_counts [OF prev'] by (simp add: g attempts_made_def sleeps_append)
qed

lemma backoff_trace_Suc: "backoff_trace d (Suc n) = backoff_trace d n @ [ClientDo n, Sleep (d n)]"
  by (simp add: backoff_trace_def)

lemma attempts_made_append: "attempts_made (xs @ ys) = attempts_made xs + attempts_made ys"
  by (simp add: attempts_made_def)

lemma backoff_trace_counts:
  "attempts_made (backoff_trace d n) = n \<and> sleeps (backoff_trace d n) = map d [0..<n]"
proof (induction n)
  case 0
  show ?case by (simp add: backoff_trace_def attempts_made_def)
next
  case (Suc n)
  then show ?case
    by (simp add: backoff_trace_Suc attempts_made_append sleeps_append) (simp add: attempts_made_def)
qed

lemma all_timeouts_run:
  assumes m: "1 \<le> m"
    and ex: "\<forall>k. int k < m \<longrightarrow> (\<exists>e. attempt_exchange w u b k = DoFailed e \<and> is_timeout e)"
  shows "attempt_loop w u b m 0 =
           (Some ([], Some (ApiTimeoutError ''API request timed out'')),
            backoff_trace timeout_backoff (nat (m - 1)) @ [ClientDo (nat (m - 1))])"
proof -
  define n where "n = nat (m - 1)"
  have n: "int n = m - 1" using m by (simp add: n_def)
  then have lt: "int n < m" by simp
  have cont: "iteration w u b m k = (None, [ClientDo k, Sleep (timeout_backoff k)])" if "k < n" for k
  proof -
    from that n have k: "int k < m" and nl: "int k \<noteq> m - 1" by simp_all
    from ex k obtain e where "attempt_exchange w u b k = DoFailed e" and "is_timeout e" by blast
    with nl show ?thesis by (simp add: iteration_def)
  qed
  from ex lt obtain e where "attempt_exchange w u b n = DoFailed e" and "is_timeout e" by blast
  with n have fin: "iteration w u b m n =
                (Some ([], Some (ApiTimeoutError ''API request timed out'')), [ClientDo n])"
    by (simp add: iteration_def)
  have prev: "\<forall>k<n. fst (iteration w u b m k) = None" by (simp add: cont)
  have "earlier w u b m n = backoff_trace timeout_backoff n"
    unfolding earlier_def backoff_trace_def
    by (rule arg_cong [where f = concat], rule map_cong) (simp_all add: cont)
  then show ?thesis
    using loop_reach [OF lt prev] loop_return [OF lt fin] by (simp add: n_def)
qed

lemma snd_GenerateResponse:
  "snd (GenerateResponse w a p m) = snd (attempt_loop w (request_url w a) (reqBody p) m 0)"
  by (simp add: GenerateResponse_def split: prod.splits option.splits)

lemma nth_sleep_of_retried:
  assumes n: "int n < m"
    and prev: "\<forall>k<n. fst (iteration w u b m k) = None"
    and it: "iteration w u b m n = (None, [ClientDo n, Sleep d])"
  shows "n < length (sleeps (snd (attempt_loop w u b m 0))) \<and>
         sleeps (snd (attempt_loop w u b m 0)) ! n = d"
proof -
  let ?rest = "snd (attempt_loop w u b m (Suc n))"
  have "snd (attempt_loop w u b m 0) = earlier w u b m n @ [ClientDo n, Sleep d] @ ?rest"
    using loop_reach [OF n prev] loop_continue [OF n it] by simp
  then have "sleeps (snd (attempt_loop w u b m 0)) = sleeps (earlier w u b m n) @ d # sleeps ?rest"
    by (simp add: sleeps_append)
  moreover have "length (sleeps (earlier w u b m n)) = n"
    using earlier_counts [OF prev] by simp
  ultimately show ?thesis by (simp add: nth_append)
qed

lemma loop_result_from_iteration:
  "fst (attempt_loop w u b m n) = Some r \<Longrightarrow> \<exists>k evs. iteration w u b m k = (Some r, evs)"
proof (induction w u b m n rule: attempt_loop.induct)
  case (1 w u b m n)
  show ?case
  proof (cases "int n < m")
    case False
    with "1.prems" show ?thesis by (simp add: loop_exit)
  next
    case True
    show ?thesis
    proof (cases "iteration w u b m n")
      case (Pair res evs)
      show ?thesis
      proof (cases res)
        case None
        with Pair have it: "iteration w u b m n = (None, evs)" by simp
        have "fst (attempt_loop w u b m (Suc n)) = Some r"
          using "1.prems" by (simp add: loop_continue [OF True it])
        then show ?thesis
          using "1.IH" [OF True it [symmetric] refl] by blast
      next
        case (Some r')
        with Pair have it: "iteration w u b m n = (Some r', evs)" by simp
        with "1.prems" have "r' = r" by (simp add: loop_return [OF True it])
        with it show ?thesis by blast
      qed
    qed
  qed
qed

lemma decode_answer_or_failure:
  "decode resp = (t, e) \<Longrightarrow> (e = None \<longleftrightarrow> t \<noteq> []) \<and> (e = None \<longrightarrow> TrimSpace t = t)"
  by (auto simp: decode_def Let_def TrimSpace_idem split: option.splits list.splits if_splits)

lemma iteration_answer_or_failure:
  "iteration w u b m n = (Some (t, e), evs) \<Longrightarrow>
   (e = None \<longleftrightarrow> t \<noteq> []) \<and> (e = None \<longrightarrow> TrimSpace t = t)"
  by (auto simp: iteration_def dest: decode_answer_or_failure
      split: exchange.splits if_splits sum.splits)

lemma decode_not_max_retries: "decode resp \<noteq> ([], Some (ApiError ''Max retries exceeded''))"
  by (auto simp: decode_def Let_def split: option.splits list.splits if_splits)

lemma iteration_not_max_retries:
  "iteration w u b m n \<noteq> (Some ([], Some (ApiError ''Max retries exceeded'')), evs)"
  by (auto simp: iteration_def decode_not_max_retries split: exchange.splits if_splits sum.splits)

lemma GenerateResponse_fell_through:
  "fst (attempt_loop w (request_url w a) (reqBody p) m 0) = None \<Longrightarrow>
   fst (GenerateResponse w a p m) = ([], Some (ApiError ''Max retries exceeded''))"
  by (cases "attempt_loop w (request_url w a) (reqBody p) m 0") (simp add: GenerateResponse_def)

lemma GenerateResponse_returned:
  "fst (attempt_loop w (request_url w a) (reqBody p) m 0) = Some r \<Longrightarrow>
   fst (GenerateResponse w a p m) = r"
  by (cases "attempt_loop w (request_url w a) (reqBody p) m 0") (simp add: GenerateResponse_def)

section \<open>The response decoder\<close>

lemma delivered_ok_decodes:
  assumes n: "int n < m"
    and prev: "\<forall>k<n. retried w a p m k"
    and ex: "attempt_exchange w (request_url w a) (reqBody p) n = Delivered 200 bytes"
    and parse: "json_Unmarshal w bytes = Inr resp"
  shows "fst (GenerateResponse w a p m) = decode resp \<and>
         attempts_made (snd (GenerateResponse w a p m)) = Suc n \<and>
         length (sleeps (snd (GenerateResponse w a p m))) = n \<and>
         last (snd (GenerateResponse w a p m)) = ClientDo n"
proof (rule GenerateResponse_terminal [OF n prev])
  show "iteration w (request_url w a) (reqBody p) m n = (Some (decode resp), [ClientDo n])"
    using ex parse by (simp add: iteration_def)
qed

lemma decode_blocked:
  "PromptFeedback resp = Some pf \<Longrightarrow> BlockReason pf \<noteq> [] \<Longrightarrow>
   decode resp = ([], Some (ContentError (''Blocked: '' @ BlockReason pf)))"
  by (simp add: decode_def)

lemma decode_unblocked:
  assumes "\<forall>pf. PromptFeedback resp = Some pf \<longrightarrow> BlockReason pf = []"
  shows "decode resp =
     (case Candidates resp of
        [] \<Rightarrow> ([], Some (ContentError ''Empty response from API''))
      | c # _ \<Rightarrow>
         (case Parts (Content c) of
            [] \<Rightarrow> ([], Some (ContentError ''No content parts in response''))
          | p # _ \<Rightarrow>
             (if TrimSpace (Text p) = [] then ([], Some (ContentError ''Empty response from API''))
              else (TrimSpace (Text p), None))))"
  using assms by (cases "PromptFeedback resp") (auto simp: decode_def Let_def split: list.splits)


subsection \<open>Model name\<close>

lemma modelName_strips: "environ w ''HOW_MODEL'' = Some (''models/'' @ x) \<Longrightarrow> modelName w = x"
  by (simp add: modelName_def Getenv_def TrimPrefix_def HasPrefix_def)

lemma modelName_plain:
  "environ w ''HOW_MODEL'' = Some ''gemini-2.5-flash'' \<Longrightarrow> modelName w = ''gemini-2.5-flash''"
  by (simp add: modelName_def Getenv_def TrimPrefix_def HasPrefix_def)

lemma modelName_default: "environ w ''HOW_MODEL'' = None \<Longrightarrow> modelName w = ''gemini-2.5-flash''"
  by (simp add: modelName_def Getenv_def TrimPrefix_def HasPrefix_def)

section \<open>The claims\<close>

text \<open>
  C8. A failure of \<open>client.Do\<close> whose error text contains neither \<open>timeout\<close> nor
  \<open>deadline exceeded\<close> is not retried: whatever the attempt index \<open>n\<close> the run has
  reached, the function returns an \<open>ApiError\<close> whose message is \<open>Request failed: \<close>
  followed by the error text. The transport call of attempt \<open>n\<close> is the last event of
  the run: \<open>n + 1\<close> calls were made, \<open>n\<close> sleeps (those of the attempts before) and none
  after.
\<close>

theorem connection_failure_not_retried:
  assumes "int n < maxRetries"
    and "\<forall>k<n. retried w apiKey prompt maxRetries k"
    and "attempt_exchange w (request_url w apiKey) (reqBody prompt) n = DoFailed e"
    and "\<not> Contains e ''timeout''" and "\<not> Contains e ''deadline exceeded''"
  shows "fst (GenerateResponse w apiKey prompt maxRetries) =
           ([], Some (ApiError (''Request failed: '' @ e))) \<and>
         attempts_made (snd (GenerateResponse w apiKey prompt maxRetries)) = Suc n \<and>
         length (sleeps (snd (GenerateResponse w apiKey prompt maxRetries))) = n \<and>
         last (snd (GenerateResponse w apiKey prompt maxRetries)) = ClientDo n"
proof (rule GenerateResponse_terminal [OF assms(1,2)])
  show "iteration w (request_url w apiKey) (reqBody prompt) maxRetries n =
          (Some ([], Some (ApiError (''Request failed: '' @ e))), [ClientDo n])"
    using assms(3-5) by (simp add: iteration_def is_timeout_def)
qed

theorem connection_failure_not_retried_witness:
  "fst (GenerateResponse
          (scripted_world Map.empty [Delivered 429 [], DoFailed ''connection reset by peer''] no_parse)
          ''key'' ''list files'' 3) =
     ([], Some (ApiError ''Request failed: connection reset by peer'')) \<and>
   attempts_made (snd (GenerateResponse
          (scripted_world Map.empty [Delivered 429 [], DoFailed ''connection reset by peer''] no_parse)
          ''key'' ''list files'' 3)) = 2"
  using connection_failure_not_retried [of 1 3
      "scripted_world Map.empty [Delivered 429 [], DoFailed ''connection reset by peer''] no_parse"
      "''key''" "''list files''" "''connection reset by peer''"]
  by (simp add: retried_def iteration_def scripted_world_def HasPrefix_def)


text \<open>
  C3. When attempt \<open>n\<close> gets status 200 and the body parses to a response without a
  block reason whose first candidate has a first part with text that is not empty after
  trimming, the function returns that trimmed text and no error. Nothing is assumed
  about the later candidates \<open>cs\<close> and the later parts \<open>pts\<close>: they do not
  influence the result.
\<close>

theorem answer_is_trimmed_first_part:
  assumes "int n < maxRetries"
    and "\<forall>k<n. retried w apiKey prompt maxRetries k"
    and "attempt_exchange w (request_url w apiKey) (reqBody prompt) n = Delivered 200 bytes"
    and "json_Unmarshal w bytes = Inr resp"
    and "\<forall>pf. PromptFeedback resp = Some pf \<longrightarrow> BlockReason pf = []"
    and "Candidates resp = c # cs"
    and "Parts (Content c) = pt # pts"
    and "TrimSpace (Text pt) \<noteq> []"
  shows "fst (GenerateResponse w apiKey prompt maxRetries) = (TrimSpace (Text pt), None) \<and>
         attempts_made (snd (GenerateResponse w apiKey prompt maxRetries)) = Suc n \<and>
         last (snd (GenerateResponse w apiKey prompt maxRetries)) = ClientDo n"
proof -
  have "decode resp = (TrimSpace (Text pt), None)"
    using assms(6-8) by (simp add: decode_unblocked [OF assms(5)])
  then show ?thesis
    using delivered_ok_decodes [OF assms(1-4)] by simp
qed

theorem answer_is_trimmed_first_part_witness:
  "fst (GenerateResponse (example_world [Delivered 200 ls_body]) ''key'' ''list files'' 3)
     = (''ls -la'', None) \<and>
   attempts_made (snd (GenerateResponse (example_world [Delivered 200 ls_body])
                         ''key'' ''list files'' 3)) = 1 \<and>
   last (snd (GenerateResponse (example_world [Delivered 200 ls_body])
                ''key'' ''list files'' 3)) = ClientDo 0"
proof -
  let ?w = "example_world [Delivered 200 ls_body]"
  let ?pt = "\<lparr>Text = ''  ls -la  \<newline>''\<rparr>"
  let ?c = "text_candidate ''  ls -la  \<newline>''"
  let ?resp = "\<lparr>Candidates = [?c], PromptFeedback = None\<rparr>"
  have trim: "TrimSpace ''  ls -la  \<newline>'' = ''ls -la''" by code_simp
  have h1: "int 0 < 3" by simp
  have h2: "\<forall>k<0. retried ?w ''key'' ''list files'' 3 k" by simp
  have h3: "attempt_exchange ?w (request_url ?w ''key'') (reqBody ''list files'') 0
              = Delivered 200 ls_body"
    by (simp add: example_world_def scripted_world_def)
  have h4: "json_Unmarshal ?w ls_body = Inr ?resp"
    by (simp add: example_world_def scripted_world_def example_Unmarshal_def)
  have h5: "\<forall>pf. PromptFeedback ?resp = Some pf \<longrightarrow> BlockReason pf = []" by simp
  have h6: "Candidates ?resp = ?c # []" by simp
  have h7: "Parts (Content ?c) = ?pt # []" by (simp add: text_candidate_def)
  have h8: "TrimSpace (Text ?pt) \<noteq> []" by (simp add: trim)
  show ?thesis
    using answer_is_trimmed_first_part [OF h1 h2 h3 h4 h5 h6 h7 h8] by (simp add: trim)
qed

text \<open>
  C5. When attempt \<open>n\<close> gets status 200 and the parsed body has a prompt feedback with
  a non-empty block reason, the function returns the \<open>ContentError\<close> with message
  \<open>Blocked: \<close> followed by the reason, and the transport call of attempt \<open>n\<close> is the
  last event: no retry, whatever \<open>maxRetries\<close> is. Nothing is assumed about the
  candidates, so the check comes before the checks of the candidate list.
\<close>

theorem block_reason_is_terminal:
  assumes "int n < maxRetries"
    and "\<forall>k<n. retried w apiKey prompt maxRetries k"
    and "attempt_exchange w (request_url w apiKey) (reqBody prompt) n = Delivered 200 bytes"
    and "json_Unmarshal w bytes = Inr resp"
    and "PromptFeedback resp = Some pf"
    and "BlockReason pf \<noteq> []"
  shows "fst (GenerateResponse w apiKey prompt maxRetries) =
           ([], Some (ContentError (''Blocked: '' @ BlockReason pf))) \<and>
         attempts_made (snd (GenerateResponse w apiKey prompt maxRetries)) = Suc n \<and>
         length (sleeps (snd (GenerateResponse w apiKey prompt maxRetries))) = n \<and>
         last (snd (GenerateResponse w apiKey prompt maxRetries)) = ClientDo n"
  using delivered_ok_decodes [OF assms(1-4)] decode_blocked [OF assms(5,6)] by simp

theorem block_reason_is_terminal_witness:
  "fst (GenerateResponse (example_world [Delivered 429 [], Delivered 200 blocked_body])
          ''key'' ''list files'' 3)
     = ([], Some (ContentError ''Blocked: SAFETY'')) \<and>
   attempts_made (snd (GenerateResponse (example_world [Delivered 429 [], Delivered 200 blocked_body])
                         ''key'' ''list files'' 3)) = 2 \<and>
   length (sleeps (snd (GenerateResponse (example_world [Delivered 429 [], Delivered 200 blocked_body])
                         ''key'' ''list files'' 3))) = 1 \<and>
   last (snd (GenerateResponse (example_world [Delivered 429 [], Delivered 200 blocked_body])
                ''key'' ''list files'' 3)) = ClientDo 1"
proof -
  let ?w = "example_world [Delivered 429 [], Delivered 200 blocked_body]"
  let ?pf = "\<lparr>BlockReason = ''SAFETY''\<rparr>"
  let ?resp = "\<lparr>Candidates = [], PromptFeedback = Some ?pf\<rparr>"
  have h1: "int 1 < 3" by simp
  have h2: "\<forall>k<1. retried ?w ''key'' ''list files'' 3 k"
    by (simp add: retried_def iteration_def example_world_def scripted_world_def)
  have h3: "attempt_exchange ?w (request_url ?w ''key'') (reqBody ''list files'') 1
              = Delivered 200 blocked_body"
    by (simp add: example_world_def scripted_world_def)
  have h4: "json_Unmarshal ?w blocked_body = Inr ?resp"
    by (simp add: example_world_def scripted_world_def example_Unmarshal_def blocked_body_def
        ls_body_def no_candidates_body_def no_parts_body_def blank_text_body_def)
  have h5: "PromptFeedback ?resp = Some ?pf" by simp
  have h6: "BlockReason ?pf \<noteq> []" by simp
  show ?thesis
    using block_reason_is_terminal [OF h1 h2 h3 h4 h5 h6] by simp
qed

text \<open>
  C6. When attempt \<open>n\<close> gets status 200 and the parsed body has no block reason:
  an empty candidate list gives \<open>Empty response from API\<close>; otherwise an empty part
  list of the first candidate gives \<open>No content parts in response\<close>; otherwise a first
  text that is empty after trimming gives \<open>Empty response from API\<close>. Each is a
  \<open>ContentError\<close> and ends the run at the transport call of attempt \<open>n\<close>.
\<close>

theorem empty_content_checks_in_order:
  assumes "int n < maxRetries"
    and "\<forall>k<n. retried w apiKey prompt maxRetries k"
    and "attempt_exchange w (request_url w apiKey) (reqBody prompt) n = Delivered 200 bytes"
    and "json_Unmarshal w bytes = Inr resp"
    and "\<forall>pf. PromptFeedback resp = Some pf \<longrightarrow> BlockReason pf = []"
  shows "(Candidates resp = [] \<longrightarrow>
            fst (GenerateResponse w apiKey prompt maxRetries) =
              ([], Some (ContentError ''Empty response from API''))) \<and>
         (\<forall>c cs. Candidates resp = c # cs \<and> Parts (Content c) = [] \<longrightarrow>
            fst (GenerateResponse w apiKey prompt maxRetries) =
              ([], Some (ContentError ''No content parts in response''))) \<and>
         (\<forall>c cs pt pts. Candidates resp = c # cs \<and> Parts (Content c) = pt # pts \<and>
              TrimSpace (Text pt) = [] \<longrightarrow>
            fst (GenerateResponse w apiKey prompt maxRetries) =
              ([], Some (ContentError ''Empty response from API''))) \<and>
         attempts_made (snd (GenerateResponse w apiKey prompt maxRetries)) = Suc n \<and>
         length (sleeps (snd (GenerateResponse w apiKey prompt maxRetries))) = n \<and>
         last (snd (GenerateResponse w apiKey prompt maxRetries)) = ClientDo n"
  using delivered_ok_decodes [OF assms(1-4)] by (auto simp: decode_unblocked [OF assms(5)])


theorem empty_content_checks_in_order_witness:
  "fst (GenerateResponse (example_world [Delivered 200 no_candidates_body]) ''key'' ''q'' 3)
     = ([], Some (ContentError ''Empty response from API'')) \<and>
   fst (GenerateResponse (example_world [Delivered 200 no_parts_body]) ''key'' ''q'' 3)
     = ([], Some (ContentError ''No content parts in response'')) \<and>
   fst (GenerateResponse (example_world [Delivered 200 blank_text_body]) ''key'' ''q'' 3)
     = ([], Some (ContentError ''Empty response from API'')) \<and>
   last (snd (GenerateResponse (example_world [Delivered 200 no_parts_body]) ''key'' ''q'' 3))
     = ClientDo 0"
proof -
  let ?w1 = "example_world [Delivered 200 no_candidates_body]"
  let ?w2 = "example_world [Delivered 200 no_parts_body]"
  let ?w3 = "example_world [Delivered 200 blank_text_body]"
  let ?r1 = "\<lparr>Candidates = [], PromptFeedback = None\<rparr>"
  let ?c2 = "\<lparr>Content = \<lparr>Parts = []\<rparr>, FinishReason = [], SafetyRatings = []\<rparr>"
  let ?r2 = "\<lparr>Candidates = [?c2], PromptFeedback = None\<rparr>"
  let ?r3 = "\<lparr>Candidates = [text_candidate ''   ''], PromptFeedback = None\<rparr>"
  note bodies = ls_body_def no_candidates_body_def no_parts_body_def blank_text_body_def
  have h1: "int 0 < 3" by simp
  have h2: "\<forall>k<0. retried w ''key'' ''q'' 3 k" for w by simp
  have e1: "attempt_exchange ?w1 (request_url ?w1 ''key'') (reqBody ''q'') 0
              = Delivered 200 no_candidates_body"
    by (simp add: example_world_def scripted_world_def)
  have e2: "attempt_exchange ?w2 (request_url ?w2 ''key'') (reqBody ''q'') 0
              = Delivered 200 no_parts_body"
    by (simp add: example_world_def scripted_world_def)
  have e3: "attempt_exchange ?w3 (request_url ?w3 ''key'') (reqBody ''q'') 0
              = Delivered 200 blank_text_body"
    by (simp add: example_world_def scripted_world_def)
  have p1: "json_Unmarshal ?w1 no_candidates_body = Inr ?r1"
    by (simp add: example_world_def scripted_world_def example_Unmarshal_def bodies)
  have p2: "json_Unmarshal ?w2 no_parts_body = Inr ?r2"
    by (simp add: example_world_def scripted_world_def example_Unmarshal_def bodies)
  have p3: "json_Unmarshal ?w3 blank_text_body = Inr ?r3"
    by (simp add: example_world_def scripted_world_def example_Unmarshal_def bodies)
  have u1: "\<forall>pf. PromptFeedback ?r1 = Some pf \<longrightarrow> BlockReason pf = []" by simp
  have u2: "\<forall>pf. PromptFeedback ?r2 = Some pf \<longrightarrow> BlockReason pf = []" by simp
  have u3: "\<forall>pf. PromptFeedback ?r3 = Some pf \<longrightarrow> BlockReason pf = []" by simp
  have blank: "TrimSpace ''   '' = []" by code_simp
  have a1: "fst (GenerateResponse ?w1 ''key'' ''q'' 3)
              = ([], Some (ContentError ''Empty response from API''))"
    using empty_content_checks_in_order [OF h1 h2 e1 p1 u1] by simp
  have a2: "fst (GenerateResponse ?w2 ''key'' ''q'' 3)
              = ([], Some (ContentError ''No content parts in response'')) \<and>
            last (snd (GenerateResponse ?w2 ''key'' ''q'' 3)) = ClientDo 0"
    using empty_content_checks_in_order [OF h1 h2 e2 p2 u2] by simp
  have a3: "fst (GenerateResponse ?w3 ''key'' ''q'' 3)
              = ([], Some (ContentError ''Empty response from API''))"
    using empty_content_checks_in_order [OF h1 h2 e3 p3 u3]
    by (simp add: text_candidate_def blank)
  from a1 a2 a3 show ?thesis by simp
qed

text \<open>
  C4 (as amended). When the first attempt gets a status outside 200 to 299 and other
  than 429, the function returns the \<open>ApiError\<close> with message
  \<open>API returned status <code>: <body>\<close> for every \<open>maxRetries\<close> of at least 1, and the only
  event of the run is the first transport call: no sleep and no second attempt.
\<close>

theorem other_status_is_terminal:
  assumes "1 \<le> maxRetries"
    and "attempt_exchange w (request_url w apiKey) (reqBody prompt) 0 = Delivered status bytes"
    and "status < 200 \<or> 300 \<le> status"
    and "status \<noteq> 429"
  shows "GenerateResponse w apiKey prompt maxRetries =
           (([], Some (ApiError (''API returned status '' @ Sprintf_d status @ '': '' @ bytes))),
            [ClientDo 0])"
proof -
  have "iteration w (request_url w apiKey) (reqBody prompt) maxRetries 0 =
          (Some ([], Some (ApiError (''API returned status '' @ Sprintf_d status @ '': '' @ bytes))),
           [ClientDo 0])"
    using assms(2-4) by (auto simp: iteration_def)
  moreover have "int 0 < maxRetries" using assms(1) by simp
  ultimately show ?thesis
    by (simp add: GenerateResponse_def loop_return)
qed

theorem other_status_is_terminal_witness:
  "GenerateResponse (example_world [Delivered 500 ''boom'']) ''key'' ''q'' 3 =
     (([], Some (ApiError ''API returned status 500: boom'')), [ClientDo 0])"
proof -
  let ?w = "example_world [Delivered 500 ''boom'']"
  have h1: "(1::int) \<le> 3" by simp
  have h2: "attempt_exchange ?w (request_url ?w ''key'') (reqBody ''q'') 0 = Delivered 500 ''boom''"
    by (simp add: example_world_def scripted_world_def)
  have h3: "(500::int) < 200 \<or> (300::int) \<le> 500" by simp
  have h4: "(500::int) \<noteq> 429" by simp
  have d: "Sprintf_d 500 = ''500''" by code_simp
  show ?thesis
    using other_status_is_terminal [OF h1 h2 h3 h4] by (simp add: d)
qed

text \<open>
  The message of C4 as the claim words it, \<open>status <code>: <body>\<close>, is not the message
  of the code: at status 500 with body \<open>boom\<close> the code gives
  \<open>API returned status 500: boom\<close>.
\<close>

theorem status_message_counterexample:
  "fst (GenerateResponse (example_world [Delivered 500 ''boom'']) ''key'' ''q'' 3)
     \<noteq> ([], Some (ApiError ''status 500: boom''))"
proof -
  have "GenerateResponse (example_world [Delivered 500 ''boom'']) ''key'' ''q'' 3 =
     (([], Some (ApiError ''API returned status 500: boom'')), [ClientDo 0])"
    by code_simp
  then show ?thesis by simp
qed


subsection \<open>Runs where every attempt times out\<close>

text \<open>
  The part of the timeout behaviour that the code meets. For every \<open>maxRetries\<close> of at
  least 1, when \<open>client.Do\<close> fails at every attempt with an error text that contains
  \<open>timeout\<close> or \<open>deadline exceeded\<close>, the function returns the \<open>ApiTimeoutError\<close>
  with message \<open>API request timed out\<close> after exactly \<open>maxRetries\<close> transport calls,
  with one call of \<open>time.Sleep\<close> after each attempt but the last and the last transport
  call as last event. The argument of the sleep after attempt \<open>k\<close> is the intended
  \<open>2 ^ k\<close> seconds as long as \<open>k\<close> is at most 33.
\<close>

theorem all_timeouts_give_timeout_error:
  assumes "1 \<le> maxRetries"
    and "\<forall>k. int k < maxRetries \<longrightarrow>
           (\<exists>e. attempt_exchange w (request_url w apiKey) (reqBody prompt) k = DoFailed e \<and>
                (Contains e ''timeout'' \<or> Contains e ''deadline exceeded''))"
  shows "fst (GenerateResponse w apiKey prompt maxRetries) =
           ([], Some (ApiTimeoutError ''API request timed out'')) \<and>
         snd (GenerateResponse w apiKey prompt maxRetries) =
           backoff_trace timeout_backoff (nat (maxRetries - 1)) @ [ClientDo (nat (maxRetries - 1))] \<and>
         attempts_made (snd (GenerateResponse w apiKey prompt maxRetries)) = nat maxRetries \<and>
         sleeps (snd (GenerateResponse w apiKey prompt maxRetries)) =
           map timeout_backoff [0..<nat (maxRetries - 1)] \<and>
         (\<forall>k\<le>33. timeout_backoff k = 2 ^ k * 1000000000)"
proof -
  have ex: "\<forall>k. int k < maxRetries \<longrightarrow>
           (\<exists>e. attempt_exchange w (request_url w apiKey) (reqBody prompt) k = DoFailed e \<and>
                is_timeout e)"
    using assms(2) by (simp add: is_timeout_def)
  have g: "GenerateResponse w apiKey prompt maxRetries =
        (([], Some (ApiTimeoutError ''API request timed out'')),
         backoff_trace timeout_backoff (nat (maxRetries - 1)) @ [ClientDo (nat (maxRetries - 1))])"
    by (simp add: GenerateResponse_def all_timeouts_run [OF assms(1) ex])
  have "Suc (nat (maxRetries - 1)) = nat maxRetries" using assms(1) by simp
  then show ?thesis
    by (simp add: g attempts_made_append sleeps_append backoff_trace_counts timeout_backoff_small)
      (simp add: attempts_made_def)
qed

theorem all_timeouts_give_timeout_error_witness:
  "GenerateResponse (always (DoFailed ''context deadline exceeded'')) ''key'' ''q'' 3 =
     (([], Some (ApiTimeoutError ''API request timed out'')),
      [ClientDo 0, Sleep 1000000000, ClientDo 1, Sleep 2000000000, ClientDo 2])"
proof -
  let ?w = "always (DoFailed ''context deadline exceeded'')"
  have h1: "(1::int) \<le> 3" by simp
  have c: "Contains ''context deadline exceeded'' ''deadline exceeded''" by code_simp
  have h2: "\<forall>k. int k < 3 \<longrightarrow>
           (\<exists>e. attempt_exchange ?w (request_url ?w ''key'') (reqBody ''q'') k = DoFailed e \<and>
                (Contains e ''timeout'' \<or> Contains e ''deadline exceeded''))"
    using c by (simp add: always_def)
  have n: "nat (3 - 1) = Suc (Suc 0)" by simp
  have t: "timeout_backoff 0 = 1000000000" "timeout_backoff (Suc 0) = 2000000000"
    by (simp_all add: timeout_backoff_small)
  have f: "fst (GenerateResponse ?w ''key'' ''q'' 3) =
             ([], Some (ApiTimeoutError ''API request timed out''))"
    and s: "snd (GenerateResponse ?w ''key'' ''q'' 3) =
             backoff_trace timeout_backoff (nat (3 - 1)) @ [ClientDo (nat (3 - 1))]"
    using all_timeouts_give_timeout_error [OF h1 h2] by blast+
  have "snd (GenerateResponse ?w ''key'' ''q'' 3) =
          [ClientDo 0, Sleep 1000000000, ClientDo 1, Sleep 2000000000, ClientDo 2]"
    unfolding s n by (simp add: backoff_trace_Suc backoff_trace_def t)
  with f show ?thesis by (simp add: prod_eq_iff)
qed



subsection \<open>Attempts answered by status 429\<close>

text \<open>
  The part of the rate-limit behaviour that the code meets. When attempt \<open>n\<close> gets
  status 429 and is not the last permitted attempt, it is retried, attempt \<open>n + 1\<close> is
  permitted, and the sleep of index \<open>n\<close> of the run gets an argument that is larger than
  the one of the timeout backoff at the same index and that is the intended \<open>2 ^ n + 1\<close>
  seconds as long as \<open>n\<close> is at most 33 (the timeout backoff being \<open>2 ^ n\<close> seconds
  there). When \<open>n\<close> is the last permitted attempt, the function returns the \<open>ApiError\<close>
  with message \<open>Rate limit exceeded\<close> with no sleep and no attempt after.
\<close>

theorem rate_limit_backoff_and_exhaustion:
  assumes "int n < maxRetries"
    and "\<forall>k<n. retried w apiKey prompt maxRetries k"
    and "attempt_exchange w (request_url w apiKey) (reqBody prompt) n = Delivered 429 bytes"
  shows "(int n < maxRetries - 1 \<longrightarrow>
            retried w apiKey prompt maxRetries n \<and> int (Suc n) < maxRetries \<and>
            n < length (sleeps (snd (GenerateResponse w apiKey prompt maxRetries))) \<and>
            sleeps (snd (GenerateResponse w apiKey prompt maxRetries)) ! n = ratelimit_backoff n \<and>
            timeout_backoff n < ratelimit_backoff n \<and>
            (n \<le> 33 \<longrightarrow> ratelimit_backoff n = (2 ^ n + 1) * 1000000000 \<and>
                        timeout_backoff n = 2 ^ n * 1000000000)) \<and>
         (int n = maxRetries - 1 \<longrightarrow>
            fst (GenerateResponse w apiKey prompt maxRetries) =
              ([], Some (ApiError ''Rate limit exceeded'')) \<and>
            attempts_made (snd (GenerateResponse w apiKey prompt maxRetries)) = Suc n \<and>
            length (sleeps (snd (GenerateResponse w apiKey prompt maxRetries))) = n \<and>
            last (snd (GenerateResponse w apiKey prompt maxRetries)) = ClientDo n)"
proof (intro conjI impI)
  let ?u = "request_url w apiKey" and ?b = "reqBody prompt"
  have prev: "\<forall>k<n. fst (iteration w ?u ?b maxRetries k) = None"
    using assms(2) by (simp add: retried_def)
  {
    assume nl: "int n < maxRetries - 1"
    then have it: "iteration w ?u ?b maxRetries n = (None, [ClientDo n, Sleep (ratelimit_backoff n)])"
      using assms(3) by (simp add: iteration_def)
    then show "retried w apiKey prompt maxRetries n" by (simp add: retried_def)
    from nl show "int (Suc n) < maxRetries" by simp
    from nth_sleep_of_retried [OF assms(1) prev it]
    show "n < length (sleeps (snd (GenerateResponse w apiKey prompt maxRetries)))"
      and "sleeps (snd (GenerateResponse w apiKey prompt maxRetries)) ! n = ratelimit_backoff n"
      by (simp_all add: snd_GenerateResponse)
    show "timeout_backoff n < ratelimit_backoff n" by (rule ratelimit_longer)
    {
      assume "n \<le> 33"
      then show "ratelimit_backoff n = (2 ^ n + 1) * 1000000000"
        and "timeout_backoff n = 2 ^ n * 1000000000"
        by (rule ratelimit_backoff_small, rule timeout_backoff_small)
    }
  }
  {
    assume "int n = maxRetries - 1"
    then have "iteration w ?u ?b maxRetries n =
            (Some ([], Some (ApiError ''Rate limit exceeded'')), [ClientDo n])"
      using assms(3) by (simp add: iteration_def)
    from GenerateResponse_terminal [OF assms(1,2) this]
    show "fst (GenerateResponse w apiKey prompt maxRetries) =
              ([], Some (ApiError ''Rate limit exceeded''))"
      and "attempts_made (snd (GenerateResponse w apiKey prompt maxRetries)) = Suc n"
      and "length (sleeps (snd (GenerateResponse w apiKey prompt maxRetries))) = n"
      and "last (snd (GenerateResponse w apiKey prompt maxRetries)) = ClientDo n"
      by simp_all
  }
qed


theorem rate_limit_backoff_and_exhaustion_witness:
  "sleeps (snd (GenerateResponse (always (Delivered 429 [])) ''key'' ''q'' 3)) ! 1 = 3000000000 \<and>
   fst (GenerateResponse (always (Delivered 429 [])) ''key'' ''q'' 3) =
     ([], Some (ApiError ''Rate limit exceeded'')) \<and>
   attempts_made (snd (GenerateResponse (always (Delivered 429 [])) ''key'' ''q'' 3)) = 3 \<and>
   last (snd (GenerateResponse (always (Delivered 429 [])) ''key'' ''q'' 3)) = ClientDo 2"
proof -
  let ?w = "always (Delivered 429 [])"
  have ex: "attempt_exchange ?w (request_url ?w ''key'') (reqBody ''q'') n = Delivered 429 []" for n
    by (simp add: always_def)
  have r: "retried ?w ''key'' ''q'' 3 k" if "k < 2" for k
    using that by (simp add: retried_def iteration_def always_def)
  have p1: "\<forall>k<1. retried ?w ''key'' ''q'' 3 k" by (simp add: r)
  have p2: "\<forall>k<2. retried ?w ''key'' ''q'' 3 k" by (simp add: r)
  have l1: "int 1 < 3" and l2: "int 2 < 3" by simp_all
  have b: "ratelimit_backoff 1 = 3000000000" by (simp add: ratelimit_backoff_small)
  have a: "sleeps (snd (GenerateResponse ?w ''key'' ''q'' 3)) ! 1 = 3000000000"
    using rate_limit_backoff_and_exhaustion [OF l1 p1 ex] by (simp add: b)
  have c: "fst (GenerateResponse ?w ''key'' ''q'' 3) = ([], Some (ApiError ''Rate limit exceeded'')) \<and>
     attempts_made (snd (GenerateResponse ?w ''key'' ''q'' 3)) = 3 \<and>
     last (snd (GenerateResponse ?w ''key'' ''q'' 3)) = ClientDo 2"
    using rate_limit_backoff_and_exhaustion [OF l2 p2 ex] by simp
  from a c show ?thesis by simp
qed


text \<open>
  C7. A value of \<open>HOW_MODEL\<close> that starts with \<open>models/\<close> gives the model name without
  this prefix: \<open>models/gemini-2.5-flash\<close> and \<open>gemini-2.5-flash\<close> give the same model
  name and the same request URL. When \<open>HOW_MODEL\<close> is unset the model name is
  \<open>gemini-2.5-flash\<close>.
\<close>

theorem model_prefix_stripped:
  "(environ w ''HOW_MODEL'' = Some (''models/'' @ x) \<longrightarrow> modelName w = x) \<and>
   (environ w1 ''HOW_MODEL'' = Some ''models/gemini-2.5-flash'' \<and>
    environ w2 ''HOW_MODEL'' = Some ''gemini-2.5-flash'' \<longrightarrow>
      modelName w1 = modelName w2 \<and> request_url w1 apiKey = request_url w2 apiKey) \<and>
   (environ w0 ''HOW_MODEL'' = None \<longrightarrow> modelName w0 = ''gemini-2.5-flash'')"
proof (intro conjI impI)
  assume "environ w ''HOW_MODEL'' = Some (''models/'' @ x)"
  then show "modelName w = x" by (rule modelName_strips)
next
  assume a: "environ w1 ''HOW_MODEL'' = Some ''models/gemini-2.5-flash'' \<and>
    environ w2 ''HOW_MODEL'' = Some ''gemini-2.5-flash''"
  then have "environ w1 ''HOW_MODEL'' = Some (''models/'' @ ''gemini-2.5-flash'')" by simp
  then have "modelName w1 = ''gemini-2.5-flash''" by (rule modelName_strips)
  moreover have "modelName w2 = ''gemini-2.5-flash''" using a by (simp add: modelName_plain)
  ultimately show "modelName w1 = modelName w2"
    and "request_url w1 apiKey = request_url w2 apiKey"
    by (simp_all add: request_url_def)
next
  assume "environ w0 ''HOW_MODEL'' = None"
  then show "modelName w0 = ''gemini-2.5-flash''" by (rule modelName_default)
qed

theorem model_prefix_stripped_witness:
  "modelName (with_model (Some ''models/gemini-2.5-flash'')) = ''gemini-2.5-flash'' \<and>
   modelName (with_model (Some ''models/gemini-2.5-flash'')) =
     modelName (with_model (Some ''gemini-2.5-flash'')) \<and>
   request_url (with_model (Some ''models/gemini-2.5-flash'')) ''key'' =
     request_url (with_model (Some ''gemini-2.5-flash'')) ''key'' \<and>
   modelName (with_model None) = ''gemini-2.5-flash''"
proof -
  let ?w1 = "with_model (Some ''models/gemini-2.5-flash'')"
  let ?w2 = "with_model (Some ''gemini-2.5-flash'')"
  let ?w0 = "with_model None"
  have e1: "environ ?w1 ''HOW_MODEL'' = Some ''models/gemini-2.5-flash''"
    by (simp add: with_model_def)
  have e2: "environ ?w2 ''HOW_MODEL'' = Some ''gemini-2.5-flash''"
    by (simp add: with_model_def)
  have e0: "environ ?w0 ''HOW_MODEL'' = None"
    by (simp add: with_model_def)
  show ?thesis
    using model_prefix_stripped [of ?w1 "''gemini-2.5-flash''" ?w1 ?w2 "''key''" ?w0] e1 e2 e0
    by auto
qed


text \<open>
  C9. For every world, key, prompt and \<open>maxRetries\<close>: the returned error is \<open>nil\<close> if
  and only if the returned text is not empty, and a text returned without error is its
  own \<open>TrimSpace\<close>, so it is neither empty nor white space only.
\<close>

theorem answer_or_failure_never_both:
  "(snd (fst (GenerateResponse w apiKey prompt maxRetries)) = None \<longleftrightarrow>
      fst (fst (GenerateResponse w apiKey prompt maxRetries)) \<noteq> []) \<and>
   (snd (fst (GenerateResponse w apiKey prompt maxRetries)) = None \<longrightarrow>
      TrimSpace (fst (fst (GenerateResponse w apiKey prompt maxRetries))) =
        fst (fst (GenerateResponse w apiKey prompt maxRetries)))"
proof (cases "fst (attempt_loop w (request_url w apiKey) (reqBody prompt) maxRetries 0)")
  case None
  then have "fst (GenerateResponse w apiKey prompt maxRetries) =
               ([], Some (ApiError ''Max retries exceeded''))"
    by (rule GenerateResponse_fell_through)
  then show ?thesis by simp
next
  case (Some r)
  then have g: "fst (GenerateResponse w apiKey prompt maxRetries) = r"
    by (rule GenerateResponse_returned)
  obtain t e where r: "r = (t, e)" by (cases r)
  from loop_result_from_iteration [OF Some] obtain k evs
    where "iteration w (request_url w apiKey) (reqBody prompt) maxRetries k = (Some (t, e), evs)"
    unfolding r by blast
  then have "(e = None \<longleftrightarrow> t \<noteq> []) \<and> (e = None \<longrightarrow> TrimSpace t = t)"
    by (rule iteration_answer_or_failure)
  then show ?thesis by (simp add: g r)
qed

theorem answer_or_failure_never_both_witness:
  "snd (fst (GenerateResponse (example_world [Delivered 200 ls_body]) ''key'' ''q'' 3)) = None \<and>
   fst (fst (GenerateResponse (example_world [Delivered 200 ls_body]) ''key'' ''q'' 3)) \<noteq> [] \<and>
   TrimSpace (fst (fst (GenerateResponse (example_world [Delivered 200 ls_body]) ''key'' ''q'' 3)))
     = fst (fst (GenerateResponse (example_world [Delivered 200 ls_body]) ''key'' ''q'' 3))"
proof -
  have e: "snd (fst (GenerateResponse (example_world [Delivered 200 ls_body]) ''key'' ''q'' 3)) = None"
    by code_simp
  show ?thesis
    using answer_or_failure_never_both
      [of "example_world [Delivered 200 ls_body]" "''key''" "''q''" 3] e
    by blast
qed

text \<open>
  C10. With \<open>maxRetries\<close> below 1 the loop body never runs: no event at all, and the
  function returns the \<open>ApiError\<close> with message \<open>Max retries exceeded\<close> of the line
  after the loop. With \<open>maxRetries\<close> of at least 1 the loop always ends by a \<open>return\<close>
  of its body, the result is never that error, and an iteration that continues is
  followed by a permitted one.
\<close>

theorem max_retries_branch:
  "(maxRetries < 1 \<longrightarrow>
      GenerateResponse w apiKey prompt maxRetries =
        (([], Some (ApiError ''Max retries exceeded'')), [])) \<and>
   (1 \<le> maxRetries \<longrightarrow>
      (\<exists>r. fst (attempt_loop w (request_url w apiKey) (reqBody prompt) maxRetries 0) = Some r) \<and>
      fst (GenerateResponse w apiKey prompt maxRetries) \<noteq>
        ([], Some (ApiError ''Max retries exceeded'')) \<and>
      (\<forall>n. int n < maxRetries \<and> retried w apiKey prompt maxRetries n \<longrightarrow>
           int (Suc n) < maxRetries))"
proof (intro conjI impI allI)
  let ?u = "request_url w apiKey" and ?b = "reqBody prompt"
  {
    assume "maxRetries < 1"
    then have "\<not> int 0 < maxRetries" by simp
    then have "attempt_loop w ?u ?b maxRetries 0 = (None, [])" by (rule loop_exit)
    then show "GenerateResponse w apiKey prompt maxRetries =
        (([], Some (ApiError ''Max retries exceeded'')), [])"
      by (simp add: GenerateResponse_def)
  }
  {
    assume "1 \<le> maxRetries"
    then have "int 0 < maxRetries" by simp
    then have "fst (attempt_loop w ?u ?b maxRetries 0) \<noteq> None"
      by (rule loop_never_falls_through)
    then obtain r where r: "fst (attempt_loop w ?u ?b maxRetries 0) = Some r" by blast
    then show "\<exists>r. fst (attempt_loop w ?u ?b maxRetries 0) = Some r" by blast
    from r have g: "fst (GenerateResponse w apiKey prompt maxRetries) = r"
      by (rule GenerateResponse_returned)
    from loop_result_from_iteration [OF r] obtain k evs
      where "iteration w ?u ?b maxRetries k = (Some r, evs)" by blast
    then have "r \<noteq> ([], Some (ApiError ''Max retries exceeded''))"
      using iteration_not_max_retries by blast
    with g show "fst (GenerateResponse w apiKey prompt maxRetries) \<noteq>
        ([], Some (ApiError ''Max retries exceeded''))" by simp
  }
  {
    fix n
    assume "int n < maxRetries \<and> retried w apiKey prompt maxRetries n"
    then have "int n < maxRetries" and "fst (iteration w ?u ?b maxRetries n) = None"
      by (simp_all add: retried_def)
    then show "int (Suc n) < maxRetries"
      using iteration_continue [of w ?u ?b maxRetries n] by simp
  }
qed

theorem max_retries_branch_witness:
  "GenerateResponse (always (Delivered 429 [])) ''key'' ''q'' 0 =
     (([], Some (ApiError ''Max retries exceeded'')), []) \<and>
   fst (GenerateResponse (always (Delivered 429 [])) ''key'' ''q'' 3) \<noteq>
     ([], Some (ApiError ''Max retries exceeded''))"
  using max_retries_branch [of 0 "always (Delivered 429 [])" "''key''" "''q''"]
    max_retries_branch [of 3 "always (Delivered 429 [])" "''key''" "''q''"]
  by simp

end
